theory Spec2Isabelle
  imports Main
begin

section \<open>The worker-pool supervisor of config/loadBalancer.js\<close>

text \<open>
  The class \<open>LoadBalancer\<close> keeps three fields: \<open>numCPUs\<close> (the target worker count),
  \<open>workers\<close> (a JavaScript \<open>Map\<close> from worker id to worker object, which iterates in
  insertion order) and \<open>isMaster\<close>. Everything else the methods touch belongs to the
  Node runtime: the id counter of the \<open>cluster\<close> module, the timers set with
  \<open>setTimeout\<close>, the promises a pending \<open>shutdownGracefully\<close> awaits, the exit status
  of the process, and the effects on worker processes (fork, IPC message, signal), which
  are recorded in a trace.
\<close>

subsection \<open>Data\<close>

type_synonym worker_id = nat

text \<open>Of a worker object the code reads only \<open>worker.process.connected\<close>;
  \<open>worker.id\<close> is the key under which the registry holds it.\<close>

record worker =
  connected :: bool

datatype signal = SIGTERM | SIGINT

datatype effect =
    Forked worker_id
  | Sent worker_id string
  | Killed worker_id signal

text \<open>\<open>worker.send\<close> on a closed channel is the one operation of the supervisor that
  can fail: Node then emits an \<open>error\<close> event on the worker, for which the supervisor
  has no listener.\<close>

datatype error = ERR_IPC_CHANNEL_CLOSED

record supervisor =
  numCPUs :: nat
  workers :: "(worker_id \<times> worker) list"
  isMaster :: bool
  nextId :: worker_id
  timers :: "worker_id list"
  waits :: "worker_id list list"
  exited :: "int option"
  uncaught :: "error list"
  trace :: "effect list"

text \<open>
  \<open>nextId\<close> is the id \<open>cluster.fork()\<close> gives the next worker; \<open>timers\<close> holds one
  entry per pending replacement timer (the dead worker it was set for, oldest first; all
  delays are 1000 ms, so they fire in that order); \<open>waits\<close> holds, for every pending call
  of \<open>shutdownGracefully\<close>, the workers whose \<open>disconnect\<close> it still awaits; \<open>exited\<close> is
  the code \<open>process.exit\<close> was called with; \<open>uncaught\<close> collects the errors no
  handler caught.
\<close>

subsection \<open>The registry: a JavaScript Map\<close>

text \<open>\<open>Map.prototype.set\<close> replaces the value of a present key in place and appends an
  absent key; \<open>Map.prototype.delete\<close> removes the key.\<close>

fun map_set :: "worker_id \<Rightarrow> worker \<Rightarrow> (worker_id \<times> worker) list \<Rightarrow> (worker_id \<times> worker) list" where
  "map_set k v [] = [(k, v)]"
| "map_set k v ((k', v') # m) = (if k' = k then (k, v) # m else (k', v') # map_set k v m)"

definition map_delete :: "worker_id \<Rightarrow> (worker_id \<times> worker) list \<Rightarrow> (worker_id \<times> worker) list" where
  "map_delete k m = filter (\<lambda>e. fst e \<noteq> k) m"

text \<open>The ids of the registered workers whose channel is connected, in registry order.\<close>

definition connected_ids :: "(worker_id \<times> worker) list \<Rightarrow> worker_id list" where
  "connected_ids m = map fst (filter (\<lambda>e. connected (snd e)) m)"

subsection \<open>Construction, forking, start of the master\<close>

text \<open>
  \<^verbatim>\<open>constructor() { this.numCPUs = os.cpus().length; this.workers = new Map();
                  this.isMaster = cluster.isMaster; }\<close>
  The two readings of the runtime are the parameters. The cluster module numbers its
  workers from 1.
\<close>

definition LoadBalancer :: "nat \<Rightarrow> bool \<Rightarrow> supervisor" where
  "LoadBalancer cpus master =
     \<lparr>numCPUs = cpus, workers = [], isMaster = master, nextId = 1, timers = [],
      waits = [], exited = None, uncaught = [], trace = []\<rparr>"

text \<open>
  \<^verbatim>\<open>forkWorker() { const worker = cluster.fork(); this.workers.set(worker.id, worker);
                   return worker; }\<close>
  \<open>cluster.fork()\<close> starts a process, gives it the next id and an open IPC channel.
\<close>

definition forkWorker :: "supervisor \<Rightarrow> supervisor" where
  "forkWorker s =
     s\<lparr>workers := map_set (nextId s) \<lparr>connected = True\<rparr> (workers s),
       nextId := Suc (nextId s),
       trace := trace s @ [Forked (nextId s)]\<rparr>"

text \<open>\<^verbatim>\<open>for (let i = i0; i < n; i++) { this.forkWorker(); }\<close>\<close>

function fork_loop :: "nat \<Rightarrow> nat \<Rightarrow> supervisor \<Rightarrow> supervisor" where
  "fork_loop i n s = (if i < n then fork_loop (Suc i) n (forkWorker s) else s)"
  by pat_completeness auto
termination
  by (relation "measure (\<lambda>(i, n, s). n - i)") auto

declare fork_loop.simps [simp del]

text \<open>\<open>startMaster\<close> returns at once in a worker process; in the master it forks
  \<open>numCPUs\<close> workers and installs the handlers of the cluster events, of the two
  termination signals and of the health-check interval (the transitions below).\<close>

definition startMaster :: "supervisor \<Rightarrow> supervisor" where
  "startMaster s = (if \<not> isMaster s then s else fork_loop 0 (numCPUs s) s)"

subsection \<open>Messages and signals to a worker\<close>

definition send :: "worker_id \<Rightarrow> worker \<Rightarrow> string \<Rightarrow> supervisor \<Rightarrow> supervisor" where
  "send k w msg s =
     (if connected w then s\<lparr>trace := trace s @ [Sent k msg]\<rparr>
      else s\<lparr>uncaught := uncaught s @ [ERR_IPC_CHANNEL_CLOSED]\<rparr>)"

definition kill :: "worker_id \<Rightarrow> signal \<Rightarrow> supervisor \<Rightarrow> supervisor" where
  "kill k sg s = s\<lparr>trace := trace s @ [Killed k sg]\<rparr>"

definition process_exit :: "int \<Rightarrow> supervisor \<Rightarrow> supervisor" where
  "process_exit c s = (if exited s = None then s\<lparr>exited := Some c\<rparr> else s)"

subsection \<open>Health monitoring\<close>

text \<open>
  \<^verbatim>\<open>this.workers.forEach((worker, id) => {
    if (worker.process.connected) { worker.send('health-check'); } });\<close>
\<close>

fun health_checks :: "(worker_id \<times> worker) list \<Rightarrow> supervisor \<Rightarrow> supervisor" where
  "health_checks [] s = s"
| "health_checks ((k, w) # m) s =
     health_checks m (if connected w then send k w ''health-check'' s else s)"

definition monitorWorkers :: "supervisor \<Rightarrow> supervisor" where
  "monitorWorkers s =
     (if \<not> isMaster s then s
      else
        let activeWorkers = length (workers s);
            expectedWorkers = numCPUs s;
            s1 = (if activeWorkers < expectedWorkers
                  then fork_loop activeWorkers expectedWorkers s else s)
        in health_checks (workers s1) s1)"

subsection \<open>Graceful shutdown\<close>

text \<open>
  \<^verbatim>\<open>this.workers.forEach((worker) => {
    if (worker.process.connected) {
      promises.push(new Promise((resolve) => {
        worker.send('shutdown'); worker.once('disconnect', resolve); })); } });\<close>
  A promise is named by the worker whose \<open>disconnect\<close> resolves it.
\<close>

fun shutdown_requests ::
  "(worker_id \<times> worker) list \<Rightarrow> worker_id list \<Rightarrow> supervisor \<Rightarrow> worker_id list \<times> supervisor" where
  "shutdown_requests [] promises s = (promises, s)"
| "shutdown_requests ((k, w) # m) promises s =
     (if connected w then shutdown_requests m (promises @ [k]) (send k w ''shutdown'' s)
      else shutdown_requests m promises s)"

text \<open>With promises to await the call suspends (it joins \<open>waits\<close>); with none it goes
  straight to \<open>process.exit(0)\<close>.\<close>

definition shutdownGracefully :: "supervisor \<Rightarrow> supervisor" where
  "shutdownGracefully s =
     (case shutdown_requests (workers s) [] s of
        (promises, s') \<Rightarrow>
          if length promises > 0 then s'\<lparr>waits := waits s' @ [promises]\<rparr>
          else process_exit 0 s')"

text \<open>A \<open>disconnect\<close> of worker \<open>k\<close> resolves the promises named \<open>k\<close>; a call all of whose
  promises are settled resumes after its \<open>await\<close> and exits the process with code 0.\<close>

definition settle :: "worker_id \<Rightarrow> supervisor \<Rightarrow> supervisor" where
  "settle k s =
     (let ws = map (removeAll k) (waits s)
      in if [] \<in> set ws then process_exit 0 (s\<lparr>waits := filter (\<lambda>p. p \<noteq> []) ws\<rparr>)
         else s\<lparr>waits := ws\<rparr>)"

subsection \<open>Restart and scaling\<close>

fun restart_kills :: "(worker_id \<times> worker) list \<Rightarrow> supervisor \<Rightarrow> supervisor" where
  "restart_kills [] s = s"
| "restart_kills ((k, w) # m) s = restart_kills m (if connected w then kill k SIGTERM s else s)"

definition restartWorkers :: "supervisor \<Rightarrow> supervisor" where
  "restartWorkers s = (if \<not> isMaster s then s else restart_kills (workers s) s)"

text \<open>
  \<^verbatim>\<open>for (let i = 0; i < toRemove; i++) {
    if (workersArray[i] && workersArray[i].process.connected) {
      workersArray[i].kill('SIGTERM'); } }\<close>
  An index past the end of the array reads \<open>undefined\<close>, which the guard skips.
\<close>

function kill_loop :: "nat \<Rightarrow> nat \<Rightarrow> (worker_id \<times> worker) list \<Rightarrow> supervisor \<Rightarrow> supervisor" where
  "kill_loop i toRemove workersArray s =
     (if i < toRemove
      then kill_loop (Suc i) toRemove workersArray
             (if i < length workersArray \<and> connected (snd (workersArray ! i))
              then kill (fst (workersArray ! i)) SIGTERM s else s)
      else s)"
  by pat_completeness auto
termination
  by (relation "measure (\<lambda>(i, n, a, s). n - i)") auto

declare kill_loop.simps [simp del]

text \<open>The argument \<open>count\<close> is any integer the caller passes, also a negative one.\<close>

definition scaleWorkers :: "int \<Rightarrow> supervisor \<Rightarrow> supervisor" where
  "scaleWorkers count s =
     (if \<not> isMaster s then s
      else
        let currentCount = int (length (workers s))
        in if count > currentCount then fork_loop 0 (nat (count - currentCount)) s
           else if count < currentCount
           then kill_loop 0 (nat (currentCount - count)) (workers s) s
           else s)"

subsection \<open>Events of the running master\<close>

text \<open>
  The handlers \<open>startMaster\<close> installs, as functions of the state:
  \<^verbatim>\<open>cluster.on('online', (worker) => { this.workers.set(worker.id, worker); });
cluster.on('disconnect', (worker) => { this.workers.delete(worker.id); });
cluster.on('exit', (worker, code, signal) => {
  this.workers.delete(worker.id);
  setTimeout(() => { this.forkWorker(); }, 1000); });\<close>
\<close>

definition on_online :: "worker_id \<Rightarrow> worker \<Rightarrow> supervisor \<Rightarrow> supervisor" where
  "on_online k w s = s\<lparr>workers := map_set k w (workers s)\<rparr>"

definition on_disconnect :: "worker_id \<Rightarrow> supervisor \<Rightarrow> supervisor" where
  "on_disconnect k s = s\<lparr>workers := map_delete k (workers s)\<rparr>"

definition on_exit :: "worker_id \<Rightarrow> supervisor \<Rightarrow> supervisor" where
  "on_exit k s = s\<lparr>workers := map_delete k (workers s), timers := timers s @ [k]\<rparr>"

text \<open>The IPC channel of a worker closes: Node clears \<open>worker.process.connected\<close> on the
  worker object, which the registry still holds until the \<open>disconnect\<close> event is handled.\<close>

definition channel_closed :: "worker_id \<Rightarrow> supervisor \<Rightarrow> supervisor" where
  "channel_closed k s =
     s\<lparr>workers := map (\<lambda>e. if fst e = k then (fst e, (snd e)\<lparr>connected := False\<rparr>) else e) (workers s)\<rparr>"

datatype event =
    Online worker_id worker
  | ChannelClosed worker_id
  | Disconnect worker_id
  | Exit worker_id
  | Timeout
  | Tick

text \<open>
  One event of the master's event loop. A process that has exited handles nothing. The
  cluster handlers and the health-check interval exist only where \<open>startMaster\<close> did not
  return early, that is in a master; the \<open>disconnect\<close> listeners of a pending shutdown
  are set by \<open>shutdownGracefully\<close> itself. Node emits \<open>disconnect\<close> for a worker once
  its channel is closed. \<open>Timeout\<close> fires the oldest replacement timer, \<open>Tick\<close> is the
  30 s interval.
\<close>

definition step :: "event \<Rightarrow> supervisor \<Rightarrow> supervisor" where
  "step e s =
     (if exited s \<noteq> None then s
      else case e of
        Online k w \<Rightarrow> (if isMaster s then on_online k w s else s)
      | ChannelClosed k \<Rightarrow> channel_closed k s
      | Disconnect k \<Rightarrow>
          settle k (if isMaster s then on_disconnect k (channel_closed k s)
                    else channel_closed k s)
      | Exit k \<Rightarrow> (if isMaster s then on_exit k s else s)
      | Timeout \<Rightarrow> (case timers s of [] \<Rightarrow> s | k # ks \<Rightarrow> forkWorker (s\<lparr>timers := ks\<rparr>))
      | Tick \<Rightarrow> monitorWorkers s)"

definition run :: "event list \<Rightarrow> supervisor \<Rightarrow> supervisor" where
  "run evs s = fold step evs s"

text \<open>The effects a run of the master added to the trace since the state \<open>s\<close>.\<close>

definition new_effects :: "supervisor \<Rightarrow> supervisor \<Rightarrow> effect list" where
  "new_effects s t = drop (length (trace s)) (trace t)"

fun is_fork :: "effect \<Rightarrow> bool" where
  "is_fork (Forked k) = True"
| "is_fork _ = False"

subsection \<open>Statistics\<close>

text \<open>Of the snapshot the model keeps the \<open>workers\<close> object and \<open>system.cpus\<close>; the other
  entries are readings of the running process (pid, uptime, memory, platform).\<close>

record worker_counts =
  total :: nat
  expected :: nat
  active :: nat

record stats =
  stats_workers :: worker_counts
  system_cpus :: nat

definition getStats :: "supervisor \<Rightarrow> stats option" where
  "getStats s =
     (if \<not> isMaster s then None
      else Some \<lparr>stats_workers =
                   \<lparr>total = length (workers s),
                    expected = numCPUs s,
                    active = length (filter (\<lambda>w. connected w) (map snd (workers s)))\<rparr>,
                 system_cpus = numCPUs s\<rparr>)"

subsection \<open>The worker process\<close>

text \<open>
  The worker branch of the production start script. Of the worker process the model
  keeps whether its IPC channel to the master is open, the code it exited with, and the
  number of health reports it sent to the master.
\<close>

record worker_process =
  ipc_open :: bool
  worker_exited :: "int option"
  health_reports :: nat

definition worker_exit :: "int \<Rightarrow> worker_process \<Rightarrow> worker_process" where
  "worker_exit c p = (if worker_exited p = None then p\<lparr>worker_exited := Some c\<rparr> else p)"

text \<open>
  \<^verbatim>\<open>async function startWorker() {
  try { const { app, io } = require('./server');
        process.on('uncaughtException', (error) => { process.exit(1); });
        process.on('unhandledRejection', (reason, promise) => { process.exit(1); });
  } catch (error) { process.exit(1); } }\<close>
  Loading the server either succeeds, and the two fault handlers are installed, or
  throws, and the worker exits with code 1: a worker that runs has both handlers.
\<close>

definition startWorker :: "bool \<Rightarrow> worker_process \<Rightarrow> worker_process" where
  "startWorker server_loads p = (if server_loads then p else worker_exit 1 p)"

definition worker_main :: "bool \<Rightarrow> worker_process" where
  "worker_main server_loads =
     startWorker server_loads \<lparr>ipc_open = True, worker_exited = None, health_reports = 0\<rparr>"

text \<open>\<open>process.send\<close> on a closed channel raises an error no listener takes, which the
  \<open>uncaughtException\<close> handler turns into exit code 1.\<close>

definition process_send :: "worker_process \<Rightarrow> worker_process" where
  "process_send p =
     (if ipc_open p then p\<lparr>health_reports := Suc (health_reports p)\<rparr> else worker_exit 1 p)"

datatype worker_event =
    Message string
  | UncaughtException
  | UnhandledRejection
  | IpcClosed

text \<open>
  \<^verbatim>\<open>process.on('message', (msg) => {
  if (msg === 'shutdown') { process.exit(0); }
  else if (msg === 'health-check') { process.send({ type: 'health', ... }); } });\<close>
  A message arrives only over an open channel. When the channel of a cluster worker
  closes without the worker having asked for it, the cluster module of Node ends the
  worker with code 0.
\<close>

definition worker_step :: "worker_event \<Rightarrow> worker_process \<Rightarrow> worker_process" where
  "worker_step e p =
     (if worker_exited p \<noteq> None then p
      else case e of
        Message msg \<Rightarrow>
          (if \<not> ipc_open p then p
           else if msg = ''shutdown'' then worker_exit 0 p
           else if msg = ''health-check'' then process_send p
           else p)
      | UncaughtException \<Rightarrow> worker_exit 1 p
      | UnhandledRejection \<Rightarrow> worker_exit 1 p
      | IpcClosed \<Rightarrow> (if ipc_open p then worker_exit 0 (p\<lparr>ipc_open := False\<rparr>) else p))"

subsection \<open>Configuration and start of the process\<close>

text \<open>
  \<open>validateEnv\<close> of config/environment.js, for the variables that concern the cluster;
  \<open>rest_valid\<close> stands for the validity of all other variables of the schema. A failed
  validation ends the process with code 1 (\<open>None\<close>).
  \<^verbatim>\<open>ENABLE_CLUSTER: Joi.boolean().default(true),
CLUSTER_WORKERS: Joi.number().min(1).max(16).default('auto'),
...
if (value.NODE_ENV === 'production') { value.ENABLE_CLUSTER = true; ... }
else if (value.NODE_ENV === 'development') { value.ENABLE_CLUSTER = false; ... }
if (value.CLUSTER_WORKERS === 'auto') { value.CLUSTER_WORKERS = os.cpus().length; }\<close>
\<close>

record env_vars =
  NODE_ENV_var :: "string option"
  ENABLE_CLUSTER_var :: "bool option"
  CLUSTER_WORKERS_var :: "int option"
  rest_valid :: bool

record env =
  NODE_ENV :: string
  ENABLE_CLUSTER :: bool
  CLUSTER_WORKERS :: int

definition validateEnv :: "env_vars \<Rightarrow> nat \<Rightarrow> env option" where
  "validateEnv vars cpus =
     (let node_env = (case NODE_ENV_var vars of None \<Rightarrow> ''development'' | Some v \<Rightarrow> v);
          enable = (case ENABLE_CLUSTER_var vars of None \<Rightarrow> True | Some b \<Rightarrow> b)
      in if rest_valid vars
            \<and> node_env \<in> {''development'', ''production'', ''test''}
            \<and> (case CLUSTER_WORKERS_var vars of None \<Rightarrow> True | Some n \<Rightarrow> 1 \<le> n \<and> n \<le> 16)
         then Some
           \<lparr>NODE_ENV = node_env,
            ENABLE_CLUSTER =
              (if node_env = ''production'' then True
               else if node_env = ''development'' then False else enable),
            CLUSTER_WORKERS =
              (case CLUSTER_WORKERS_var vars of None \<Rightarrow> int cpus | Some n \<Rightarrow> n)\<rparr>
         else None)"

text \<open>
  The production start script:
  \<^verbatim>\<open>const env = validateEnv();
if (cluster.isMaster && env.ENABLE_CLUSTER) {
  const loadBalancer = new LoadBalancer();
  loadBalancer.startMaster(); ...
} else { process.on('message', ...); startWorker(); }\<close>
  Its parameters are the environment variables, \<open>os.cpus().length\<close>,
  \<open>cluster.isMaster\<close> and whether the server module loads. A process that takes the
  second branch although it is the cluster master (clustering is switched off) serves
  alone and has no IPC channel.
\<close>

datatype started = Aborted | MasterProcess supervisor | WorkerProcess worker_process

definition production_start :: "env_vars \<Rightarrow> nat \<Rightarrow> bool \<Rightarrow> bool \<Rightarrow> started" where
  "production_start vars cpus cluster_isMaster server_loads =
     (case validateEnv vars cpus of
        None \<Rightarrow> Aborted
      | Some env \<Rightarrow>
          if cluster_isMaster \<and> ENABLE_CLUSTER env
          then MasterProcess (startMaster (LoadBalancer cpus cluster_isMaster))
          else WorkerProcess ((worker_main server_loads)\<lparr>ipc_open := \<not> cluster_isMaster\<rparr>))"

text \<open>
  Before it takes either branch the script sets, in production,
  \<^verbatim>\<open>process.env.NODE_OPTIONS = '--max-old-space-size=4096 --optimize-for-size';\<close>
  which every process forked afterwards inherits. Node does not accept
  \<open>--optimize-for-size\<close> in \<open>NODE_OPTIONS\<close> and ends such a process with code 9 before
  the script runs; the master sees the exit of that worker. Elsewhere a forked worker
  runs the worker branch.
\<close>

definition forked_worker :: "env \<Rightarrow> bool \<Rightarrow> worker_process" where
  "forked_worker env server_loads =
     (if NODE_ENV env = ''production''
      then worker_exit 9 \<lparr>ipc_open = True, worker_exited = None, health_reports = 0\<rparr>
      else worker_main server_loads)"

subsection \<open>Closed forms used in the proofs\<close>

text \<open>The registry after \<open>n\<close> forks from id \<open>k\<close> on, and the entries they add when the ids
  are new.\<close>

primrec fork_registry :: "worker_id \<Rightarrow> nat \<Rightarrow> (worker_id \<times> worker) list \<Rightarrow> (worker_id \<times> worker) list" where
  "fork_registry k 0 m = m"
| "fork_registry k (Suc n) m = fork_registry (Suc k) n (map_set k \<lparr>connected = True\<rparr> m)"

primrec fresh_entries :: "worker_id \<Rightarrow> nat \<Rightarrow> (worker_id \<times> worker) list" where
  "fresh_entries k 0 = []"
| "fresh_entries k (Suc n) = (k, \<lparr>connected = True\<rparr>) # fresh_entries (Suc k) n"

text \<open>The cluster module never reuses an id: every registered id is below the next one.\<close>

definition fresh_ids :: "supervisor \<Rightarrow> bool" where
  "fresh_ids s = (\<forall>k \<in> fst ` set (workers s). k < nextId s)"

section \<open>Properties\<close>

subsection \<open>Closed forms of the loops and operations\<close>

lemma map_set_absent: "k \<notin> fst ` set m \<Longrightarrow> map_set k v m = m @ [(k, v)]"
  by (induction m) auto

lemma length_fresh_entries [simp]: "length (fresh_entries k n) = n"
  by (induction n arbitrary: k) auto

lemma fresh_entries_connected: "e \<in> set (fresh_entries k n) \<Longrightarrow> connected (snd e)"
  by (induction n arbitrary: k) auto

lemma health_checks_eq:
  "health_checks m s = s\<lparr>trace := trace s @ map (\<lambda>k. Sent k ''health-check'') (connected_ids m)\<rparr>"
  by (induction m s rule: health_checks.induct) (simp_all add: connected_ids_def send_def)

lemma shutdown_requests_eq:
  "shutdown_requests m ps s =
     (ps @ connected_ids m, s\<lparr>trace := trace s @ map (\<lambda>k. Sent k ''shutdown'') (connected_ids m)\<rparr>)"
  by (induction m ps s rule: shutdown_requests.induct) (simp_all add: connected_ids_def send_def)

lemma restart_kills_eq:
  "restart_kills m s = s\<lparr>trace := trace s @ map (\<lambda>k. Killed k SIGTERM) (connected_ids m)\<rparr>"
  by (induction m s rule: restart_kills.induct) (simp_all add: connected_ids_def kill_def)

lemma fork_loop_eq:
  "fork_loop i n s =
     s\<lparr>workers := fork_registry (nextId s) (n - i) (workers s),
       nextId := nextId s + (n - i),
       trace := trace s @ map Forked [nextId s ..< nextId s + (n - i)]\<rparr>"
proof (induction i n s rule: fork_loop.induct)
  case (1 i n s)
  show ?case
  proof (cases "i < n")
    case False
    then show ?thesis by (simp add: fork_loop.simps)
  next
    case True
    from True obtain d where d: "n - i = Suc d" "n - Suc i = d"
      by (cases "n - i") auto
    have "fork_loop i n s = fork_loop (Suc i) n (forkWorker s)"
      using True by (simp add: fork_loop.simps)
    also have "\<dots> = (forkWorker s)\<lparr>workers := fork_registry (nextId (forkWorker s)) d (workers (forkWorker s)),
       nextId := nextId (forkWorker s) + d,
       trace := trace (forkWorker s) @ map Forked [nextId (forkWorker s) ..< nextId (forkWorker s) + d]\<rparr>"
      using "1.IH" [OF True] d by simp
    also have "\<dots> = s\<lparr>workers := fork_registry (nextId s) (n - i) (workers s),
       nextId := nextId s + (n - i),
       trace := trace s @ map Forked [nextId s ..< nextId s + (n - i)]\<rparr>"
      using d by (simp add: forkWorker_def upt_rec [of "nextId s"])
    finally show ?thesis .
  qed
qed

lemma fork_registry_fresh:
  "\<forall>j \<in> fst ` set m. j < k \<Longrightarrow> fork_registry k n m = m @ fresh_entries k n"
proof (induction n arbitrary: k m)
  case 0
  then show ?case by simp
next
  case (Suc n)
  have absent: "k \<notin> fst ` set m" using Suc.prems by auto
  have "\<forall>j \<in> fst ` set (m @ [(k, \<lparr>connected = True\<rparr>)]). j < Suc k"
    using Suc.prems by (auto simp: less_Suc_eq)
  from Suc.IH [OF this] show ?case
    by (simp add: map_set_absent [OF absent])
qed

lemma kill_loop_eq:
  "kill_loop i n a s =
     s\<lparr>trace := trace s @ map (\<lambda>k. Killed k SIGTERM) (connected_ids (take (n - i) (drop i a)))\<rparr>"
proof (induction i n a s rule: kill_loop.induct)
  case (1 i n a s)
  show ?case
  proof (cases "i < n")
    case False
    then show ?thesis by (simp add: kill_loop.simps connected_ids_def)
  next
    case True
    from True obtain d where d: "n - i = Suc d" "n - Suc i = d"
      by (cases "n - i") auto
    show ?thesis
    proof (cases "i < length a")
      case inb: True
      have dr: "drop i a = a ! i # drop (Suc i) a"
        using inb by (simp add: Cons_nth_drop_Suc)
      show ?thesis
        using True "1.IH" [OF True] d dr inb
        by (subst kill_loop.simps) (simp add: connected_ids_def kill_def)
    next
      case oob: False
      show ?thesis
        using True "1.IH" [OF True] d oob
        by (subst kill_loop.simps) (simp add: connected_ids_def)
    qed
  qed
qed

lemma filter_is_fork_Forked: "filter is_fork (map Forked ks) = map Forked ks"
  by (induction ks) auto

lemma filter_is_fork_Sent: "filter is_fork (map (\<lambda>k. Sent k msg) ks) = []"
  by (induction ks) auto

lemma filter_is_fork_Killed: "filter is_fork (map (\<lambda>k. Killed k sg) ks) = []"
  by (induction ks) auto

lemma monitorWorkers_eq:
  "isMaster s \<Longrightarrow>
   monitorWorkers s =
     s\<lparr>workers := fork_registry (nextId s) (numCPUs s - length (workers s)) (workers s),
       nextId := nextId s + (numCPUs s - length (workers s)),
       trace := trace s @ map Forked [nextId s ..< nextId s + (numCPUs s - length (workers s))]
                @ map (\<lambda>k. Sent k ''health-check'')
                    (connected_ids (fork_registry (nextId s) (numCPUs s - length (workers s)) (workers s)))\<rparr>"
  by (simp add: monitorWorkers_def Let_def fork_loop_eq health_checks_eq)

lemma shutdownGracefully_eq:
  "shutdownGracefully s =
     (if connected_ids (workers s) \<noteq> []
      then s\<lparr>trace := trace s @ map (\<lambda>k. Sent k ''shutdown'') (connected_ids (workers s)),
             waits := waits s @ [connected_ids (workers s)]\<rparr>
      else process_exit 0 s)"
  by (simp add: shutdownGracefully_def shutdown_requests_eq)

lemma scale_up_closed_form:
  "isMaster s \<Longrightarrow> int (length (workers s)) < count \<Longrightarrow>
   scaleWorkers count s =
     s\<lparr>workers := fork_registry (nextId s) (nat (count - int (length (workers s)))) (workers s),
       nextId := nextId s + nat (count - int (length (workers s))),
       trace := trace s @ map Forked [nextId s ..< nextId s + nat (count - int (length (workers s)))]\<rparr>"
  by (simp add: scaleWorkers_def Let_def fork_loop_eq)

lemma scale_down_closed_form:
  "isMaster s \<Longrightarrow> count < int (length (workers s)) \<Longrightarrow>
   scaleWorkers count s =
     s\<lparr>trace := trace s @ map (\<lambda>k. Killed k SIGTERM)
        (connected_ids (take (nat (int (length (workers s)) - count)) (workers s)))\<rparr>"
  by (simp add: scaleWorkers_def Let_def kill_loop_eq)

lemma run_exited: "exited s \<noteq> None \<Longrightarrow> run evs s = s"
  by (induction evs) (simp_all add: run_def step_def)

lemma run_Cons: "run (e # evs) s = run evs (step e s)"
  by (simp add: run_def)

lemma monitorWorkers_frame:
  "waits (monitorWorkers s) = waits s \<and> exited (monitorWorkers s) = exited s \<and>
   timers (monitorWorkers s) = timers s \<and> isMaster (monitorWorkers s) = isMaster s \<and>
   uncaught (monitorWorkers s) = uncaught s"
  by (cases "isMaster s") (simp_all add: monitorWorkers_eq, simp_all add: monitorWorkers_def)

lemma step_frame:
  "exited s = None \<Longrightarrow> \<forall>k. e \<noteq> Disconnect k \<Longrightarrow>
   waits (step e s) = waits s \<and> exited (step e s) = None"
  by (cases e)
     (simp_all add: step_def on_online_def on_exit_def channel_closed_def forkWorker_def
        monitorWorkers_frame split: list.splits)

lemma step_Disconnect_waits:
  "exited s = None \<Longrightarrow> waits s = [ids] \<Longrightarrow>
   (removeAll k ids = [] \<longrightarrow> exited (step (Disconnect k) s) = Some 0) \<and>
   (removeAll k ids \<noteq> [] \<longrightarrow>
      exited (step (Disconnect k) s) = None \<and> waits (step (Disconnect k) s) = [removeAll k ids])"
  by (simp add: step_def settle_def on_disconnect_def channel_closed_def process_exit_def Let_def)

lemma wait_resolves:
  "exited s = None \<Longrightarrow> waits s = [ids] \<Longrightarrow> ids \<noteq> [] \<Longrightarrow>
   (exited (run evs s) = Some 0 \<longleftrightarrow> set ids \<subseteq> {k. Disconnect k \<in> set evs}) \<and>
   (exited (run evs s) = None \<or> exited (run evs s) = Some 0)"
proof (induction evs arbitrary: s ids)
  case Nil
  have "run [] s = s" by (simp add: run_def)
  moreover have "\<not> set ids \<subseteq> {}" using Nil.prems(3) by simp
  ultimately show ?case using Nil.prems(1) by simp
next
  case (Cons e evs)
  let ?D = "\<lambda>xs. {k. Disconnect k \<in> set xs}"
  have rc: "run (e # evs) s = run evs (step e s)" by (rule run_Cons)
  show ?case
  proof (cases "\<exists>k. e = Disconnect k")
    case False
    then have nd: "\<forall>k. e \<noteq> Disconnect k" by simp
    have fr: "waits (step e s) = [ids]" "exited (step e s) = None"
      using step_frame [OF Cons.prems(1) nd] Cons.prems(2) by simp_all
    have D: "?D (e # evs) = ?D evs"
      using nd by auto
    show ?thesis
      unfolding rc D by (rule Cons.IH [OF fr(2) fr(1) Cons.prems(3)])
  next
    case True
    then obtain k where e: "e = Disconnect k" by blast
    note sd = step_Disconnect_waits [OF Cons.prems(1) Cons.prems(2), of k]
    have D: "?D (e # evs) = insert k (?D evs)"
      using e by auto
    show ?thesis
    proof (cases "removeAll k ids = []")
      case True
      then have ex: "exited (step e s) = Some 0" using sd e by simp
      then have r: "run evs (step e s) = step e s"
        by (simp add: run_exited)
      have "set (removeAll k ids) = {}" using True by simp
      then have "set ids \<subseteq> insert k (?D evs)" by auto
      then show ?thesis unfolding rc D r using ex by simp
    next
      case False
      then have fr: "exited (step e s) = None" "waits (step e s) = [removeAll k ids]"
        using sd e by simp_all
      have sub: "set ids \<subseteq> insert k (?D evs) \<longleftrightarrow> set (removeAll k ids) \<subseteq> ?D evs"
        by auto
      show ?thesis
        unfolding rc D sub by (rule Cons.IH [OF fr False])
    qed
  qed
qed

lemma fresh_ids_LoadBalancer: "fresh_ids (LoadBalancer cpus master)"
  by (simp add: fresh_ids_def LoadBalancer_def)

subsection \<open>Statistics\<close>

text \<open>
  C9. \<open>getStats\<close> in a worker process returns null (\<open>None\<close>); it has no operation that
  can throw. In the master it returns a snapshot whose \<open>workers.total\<close> is the registry
  size, whose \<open>workers.expected\<close> is the target worker count and whose \<open>workers.active\<close>
  is the number of registered workers with a connected channel. In particular, after the
  master has started with target 4 (and with any target \<open>n\<close>), \<open>active\<close> and \<open>expected\<close>
  both are 4 (are \<open>n\<close>).
\<close>

theorem getStats_snapshot:
  "(\<not> isMaster s \<longrightarrow> getStats s = None) \<and>
   (isMaster s \<longrightarrow>
      (\<exists>st. getStats s = Some st \<and>
            total (stats_workers st) = length (workers s) \<and>
            expected (stats_workers st) = numCPUs s \<and>
            active (stats_workers st) = length (connected_ids (workers s)))) \<and>
   getStats (startMaster (LoadBalancer n True)) =
     Some \<lparr>stats_workers = \<lparr>total = n, expected = n, active = n\<rparr>, system_cpus = n\<rparr> \<and>
   map_option (\<lambda>st. (active (stats_workers st), expected (stats_workers st)))
     (getStats (startMaster (LoadBalancer 4 True))) = Some (4, 4)"
proof -
  have all_conn: "filter (\<lambda>w. connected w) (map snd (fresh_entries k m)) = map snd (fresh_entries k m)" for k m
    by (rule filter_True) (auto dest: fresh_entries_connected)
  have start: "getStats (startMaster (LoadBalancer m True)) =
     Some \<lparr>stats_workers = \<lparr>total = m, expected = m, active = m\<rparr>, system_cpus = m\<rparr>" for m
  proof -
    have "startMaster (LoadBalancer m True) = fork_loop 0 m (LoadBalancer m True)"
      by (simp add: startMaster_def LoadBalancer_def)
    also have "\<dots> = (LoadBalancer m True)\<lparr>workers := fresh_entries 1 m, nextId := 1 + m,
        trace := map Forked [1 ..< 1 + m]\<rparr>"
      using fork_loop_eq [of 0 m "LoadBalancer m True"]
      by (simp add: fork_registry_fresh) (simp add: LoadBalancer_def fork_registry_fresh)
    finally show ?thesis
      by (simp add: getStats_def all_conn LoadBalancer_def)
  qed
  show ?thesis
    by (simp add: start) (simp add: getStats_def connected_ids_def filter_map comp_def)
qed

theorem getStats_snapshot_witness:
  "getStats (LoadBalancer 4 False) = None \<and>
   getStats ((LoadBalancer 4 True)\<lparr>workers := [(1, \<lparr>connected = True\<rparr>), (2, \<lparr>connected = False\<rparr>)]\<rparr>) =
     Some \<lparr>stats_workers = \<lparr>total = 2, expected = 4, active = 1\<rparr>, system_cpus = 4\<rparr>"
  using getStats_snapshot [of "LoadBalancer 4 False" 4]
    getStats_snapshot [of "(LoadBalancer 4 True)\<lparr>workers := [(1, \<lparr>connected = True\<rparr>), (2, \<lparr>connected = False\<rparr>)]\<rparr>" 4]
  by (simp add: LoadBalancer_def getStats_def)

subsection \<open>Graceful shutdown\<close>

lemma startMaster_LoadBalancer:
  "startMaster (LoadBalancer n True) =
     \<lparr>numCPUs = n, workers = fresh_entries 1 n, isMaster = True, nextId = Suc n, timers = [],
      waits = [], exited = None, uncaught = [], trace = map Forked [1 ..< Suc n]\<rparr>"
proof -
  have "startMaster (LoadBalancer n True) = fork_loop 0 n (LoadBalancer n True)"
    by (simp add: startMaster_def LoadBalancer_def)
  also have "\<dots> = (LoadBalancer n True)\<lparr>workers := fresh_entries 1 n, nextId := 1 + n,
        trace := map Forked [1 ..< 1 + n]\<rparr>"
    using fork_loop_eq [of 0 n "LoadBalancer n True"]
    by (simp add: fork_registry_fresh) (simp add: LoadBalancer_def fork_registry_fresh)
  finally show ?thesis by (simp add: LoadBalancer_def)
qed

text \<open>
  C4. In a running master with no shutdown pending, \<open>shutdownGracefully\<close> sends
  \<open>shutdown\<close> to every registered worker whose channel is connected, and to nobody else.
  With no such worker the process exits with code 0 at once. Otherwise the call waits: after
  any sequence of events of the master, the process has exited (with code 0) exactly when
  every one of those workers has fired its \<open>disconnect\<close> event, and it never exits with
  another code.
\<close>

theorem shutdownGracefully_waits:
  assumes "exited s = None" and "waits s = []"
  shows "new_effects s (shutdownGracefully s) =
           map (\<lambda>k. Sent k ''shutdown'') (connected_ids (workers s)) \<and>
         (exited (shutdownGracefully s) = Some 0 \<longleftrightarrow> connected_ids (workers s) = []) \<and>
         (exited (run evs (shutdownGracefully s)) = Some 0 \<longleftrightarrow>
            (\<forall>k \<in> set (connected_ids (workers s)). Disconnect k \<in> set evs)) \<and>
         (exited (run evs (shutdownGracefully s)) = None \<or>
          exited (run evs (shutdownGracefully s)) = Some 0)"
proof (cases "connected_ids (workers s) = []")
  case True
  then have sg: "shutdownGracefully s = s\<lparr>exited := Some 0\<rparr>"
    using assms by (simp add: shutdownGracefully_eq process_exit_def)
  show ?thesis
    using True by (simp add: sg run_exited new_effects_def)
next
  case False
  let ?t = "shutdownGracefully s"
  have sg: "?t = s\<lparr>trace := trace s @ map (\<lambda>k. Sent k ''shutdown'') (connected_ids (workers s)),
             waits := waits s @ [connected_ids (workers s)]\<rparr>"
    using False by (simp add: shutdownGracefully_eq)
  have t: "exited ?t = None" "waits ?t = [connected_ids (workers s)]"
    using assms by (simp_all add: sg)
  have ne: "new_effects s ?t = map (\<lambda>k. Sent k ''shutdown'') (connected_ids (workers s))"
    by (simp add: new_effects_def sg)
  have ex: "exited ?t \<noteq> Some 0" using t(1) by simp
  have sub: "set (connected_ids (workers s)) \<subseteq> {k. Disconnect k \<in> set evs} \<longleftrightarrow>
     (\<forall>k \<in> set (connected_ids (workers s)). Disconnect k \<in> set evs)"
    by blast
  show ?thesis
    using wait_resolves [OF t False, of evs] False ex ne unfolding sub by blast
qed

theorem shutdownGracefully_waits_witness:
  "new_effects (startMaster (LoadBalancer 3 True))
     (shutdownGracefully (startMaster (LoadBalancer 3 True))) =
     [Sent 1 ''shutdown'', Sent 2 ''shutdown'', Sent 3 ''shutdown''] \<and>
   exited (shutdownGracefully (startMaster (LoadBalancer 3 True))) \<noteq> Some 0 \<and>
   exited (run [Disconnect 2, Exit 2, Disconnect 1]
     (shutdownGracefully (startMaster (LoadBalancer 3 True)))) \<noteq> Some 0 \<and>
   exited (run [Disconnect 2, Exit 2, Disconnect 1, Disconnect 3]
     (shutdownGracefully (startMaster (LoadBalancer 3 True)))) = Some 0"
proof -
  let ?s = "startMaster (LoadBalancer 3 True)"
  have s: "?s = \<lparr>numCPUs = 3, workers = [(1, \<lparr>connected = True\<rparr>), (2, \<lparr>connected = True\<rparr>),
      (3, \<lparr>connected = True\<rparr>)], isMaster = True, nextId = 4, timers = [],
      waits = [], exited = None, uncaught = [], trace = [Forked 1, Forked 2, Forked 3]\<rparr>"
    by code_simp
  have h1: "exited ?s = None" and h2: "waits ?s = []"
    by (simp_all add: s)
  have c: "connected_ids (workers ?s) = [1, 2, 3]"
    by (simp add: s connected_ids_def)
  show ?thesis
    using shutdownGracefully_waits [OF h1 h2, of "[Disconnect 2, Exit 2, Disconnect 1]"]
      shutdownGracefully_waits [OF h1 h2, of "[Disconnect 2, Exit 2, Disconnect 1, Disconnect 3]"]
    unfolding c by simp
qed

lemma new_effects_append: "trace t = trace s @ xs \<Longrightarrow> new_effects s t = xs"
  by (simp add: new_effects_def)

lemma shutdownGracefully_fields:
  "workers (shutdownGracefully s) = workers s \<and>
   nextId (shutdownGracefully s) = nextId s \<and>
   timers (shutdownGracefully s) = timers s \<and>
   uncaught (shutdownGracefully s) = uncaught s \<and>
   isMaster (shutdownGracefully s) = isMaster s \<and>
   trace (shutdownGracefully s) =
     trace s @ map (\<lambda>k. Sent k ''shutdown'') (connected_ids (workers s))"
  by (simp add: shutdownGracefully_eq process_exit_def)

lemma shutdownGracefully_exited:
  "exited s = None \<Longrightarrow> exited (shutdownGracefully s) \<noteq> None \<Longrightarrow> connected_ids (workers s) = []"
  by (simp add: shutdownGracefully_eq split: if_splits)

lemma settle_fields:
  "workers (settle k s) = workers s \<and> trace (settle k s) = trace s \<and>
   uncaught (settle k s) = uncaught s"
  by (simp add: settle_def process_exit_def Let_def)

lemma connected_ids_channel_closed:
  "k \<notin> set (connected_ids (map (\<lambda>e. if fst e = k then (fst e, (snd e)\<lparr>connected := False\<rparr>) else e) m))"
  by (induction m) (auto simp: connected_ids_def)

lemma connected_ids_map_delete: "k \<notin> set (connected_ids (map_delete k m))"
  by (auto simp: connected_ids_def map_delete_def)

lemma step_Disconnect_fields:
  "exited s = None \<Longrightarrow>
   k \<notin> set (connected_ids (workers (step (Disconnect k) s))) \<and>
   trace (step (Disconnect k) s) = trace s \<and> uncaught (step (Disconnect k) s) = uncaught s"
  by (simp add: step_def settle_fields on_disconnect_def channel_closed_def
      connected_ids_channel_closed connected_ids_map_delete)

text \<open>
  C5. Two calls of \<open>shutdownGracefully\<close> in succession (the start script and
  \<open>startMaster\<close> both install it for SIGTERM and SIGINT, so one signal calls it twice)
  fork no worker, leave the registry, the id counter and the timers as they were, and
  raise no error. A worker that is not connected gets no \<open>shutdown\<close> message from
  either call, and a worker whose \<open>disconnect\<close> is handled between the two calls gets
  none from the second. (A worker that is still connected at the second call is sent the
  message again.)
\<close>

theorem shutdownGracefully_twice:
  "filter is_fork (new_effects s (shutdownGracefully (shutdownGracefully s))) = [] \<and>
   nextId (shutdownGracefully (shutdownGracefully s)) = nextId s \<and>
   workers (shutdownGracefully (shutdownGracefully s)) = workers s \<and>
   timers (shutdownGracefully (shutdownGracefully s)) = timers s \<and>
   uncaught (shutdownGracefully (shutdownGracefully s)) = uncaught s \<and>
   (k \<notin> set (connected_ids (workers s)) \<longrightarrow>
      Sent k ''shutdown'' \<notin> set (new_effects s (shutdownGracefully (shutdownGracefully s)))) \<and>
   (exited s = None \<longrightarrow>
      Sent k ''shutdown'' \<notin>
        set (new_effects (step (Disconnect k) (shutdownGracefully s))
               (shutdownGracefully (step (Disconnect k) (shutdownGracefully s)))) \<and>
      uncaught (shutdownGracefully (step (Disconnect k) (shutdownGracefully s))) = uncaught s \<and>
      filter is_fork
        (new_effects s (shutdownGracefully (step (Disconnect k) (shutdownGracefully s)))) = [])"
proof -
  let ?M = "map (\<lambda>k. Sent k ''shutdown'') (connected_ids (workers s))"
  let ?s1 = "shutdownGracefully s"
  let ?s2 = "step (Disconnect k) ?s1"
  note f1 = shutdownGracefully_fields [of s]
  note f2 = shutdownGracefully_fields [of ?s1]
  have tr: "trace (shutdownGracefully ?s1) = trace s @ (?M @ ?M)"
    using f1 f2 by simp
  have ne: "new_effects s (shutdownGracefully ?s1) = ?M @ ?M"
    by (rule new_effects_append [OF tr])
  have direct: "filter is_fork (new_effects s (shutdownGracefully ?s1)) = []"
    "k \<notin> set (connected_ids (workers s)) \<longrightarrow>
      Sent k ''shutdown'' \<notin> set (new_effects s (shutdownGracefully ?s1))"
    unfolding ne by (auto simp: filter_is_fork_Sent)
  have between: "Sent k ''shutdown'' \<notin> set (new_effects ?s2 (shutdownGracefully ?s2)) \<and>
      uncaught (shutdownGracefully ?s2) = uncaught s \<and>
      filter is_fork (new_effects s (shutdownGracefully ?s2)) = []" if run: "exited s = None"
  proof (cases "exited ?s1 = None")
    case True
    note d = step_Disconnect_fields [OF True, of k]
    note f3 = shutdownGracefully_fields [of ?s2]
    have a: "new_effects ?s2 (shutdownGracefully ?s2) =
        map (\<lambda>k. Sent k ''shutdown'') (connected_ids (workers ?s2))"
      using f3 by (intro new_effects_append) simp
    have b: "new_effects s (shutdownGracefully ?s2) =
        ?M @ map (\<lambda>k. Sent k ''shutdown'') (connected_ids (workers ?s2))"
      using f3 d f1 by (intro new_effects_append) simp
    show ?thesis
      unfolding a b using d f3 f1 by (auto simp: filter_is_fork_Sent)
  next
    case False
    then have same: "?s2 = ?s1" by (simp add: step_def)
    have none: "connected_ids (workers s) = []"
      using shutdownGracefully_exited [OF run False] .
    show ?thesis
      unfolding same ne using f1 f2 none
      by (simp add: new_effects_def)
  qed
  show ?thesis
    using direct between f1 f2 by simp
qed

theorem shutdownGracefully_twice_witness:
  "Sent 2 ''shutdown'' \<notin>
     set (new_effects
       ((LoadBalancer 2 True)\<lparr>workers := [(1, \<lparr>connected = True\<rparr>), (2, \<lparr>connected = False\<rparr>)]\<rparr>)
       (shutdownGracefully (shutdownGracefully
         ((LoadBalancer 2 True)\<lparr>workers := [(1, \<lparr>connected = True\<rparr>), (2, \<lparr>connected = False\<rparr>)]\<rparr>)))) \<and>
   Sent 1 ''shutdown'' \<notin>
     set (new_effects
       (step (Disconnect 1) (shutdownGracefully (startMaster (LoadBalancer 2 True))))
       (shutdownGracefully
         (step (Disconnect 1) (shutdownGracefully (startMaster (LoadBalancer 2 True))))))"
proof -
  let ?a = "(LoadBalancer 2 True)\<lparr>workers := [(1, \<lparr>connected = True\<rparr>), (2, \<lparr>connected = False\<rparr>)]\<rparr>"
  let ?b = "startMaster (LoadBalancer 2 True)"
  have h: "2 \<notin> set (connected_ids (workers ?a))"
    by (simp add: connected_ids_def LoadBalancer_def)
  have e: "exited ?b = None"
    by (simp add: startMaster_LoadBalancer)
  show ?thesis
    using shutdownGracefully_twice [of ?a 2] shutdownGracefully_twice [of ?b 1] h e
    by blast
qed

subsection \<open>Health monitoring\<close>

text \<open>
  C6. A health-check tick of the running master is one call of \<open>monitorWorkers\<close>. It
  forks \<open>numCPUs - size\<close> workers, \<open>size\<close> being the registry size when the tick starts
  (none when the registry is not below target), and then sends \<open>health-check\<close> to exactly
  the registered workers with a connected channel, the new ones among them; it does
  nothing else. With ids never reused the forks are appended to the registry.
\<close>

theorem monitorWorkers_tick:
  assumes "isMaster s"
  shows "(exited s = None \<longrightarrow> step Tick s = monitorWorkers s) \<and>
         new_effects s (monitorWorkers s) =
           map Forked [nextId s ..< nextId s + (numCPUs s - length (workers s))] @
           map (\<lambda>k. Sent k ''health-check'') (connected_ids (workers (monitorWorkers s))) \<and>
         (length (workers s) < numCPUs s \<longrightarrow>
            length (filter is_fork (new_effects s (monitorWorkers s))) =
              numCPUs s - length (workers s)) \<and>
         (fresh_ids s \<longrightarrow>
            workers (monitorWorkers s) =
              workers s @ fresh_entries (nextId s) (numCPUs s - length (workers s)))"
proof -
  have 1: "new_effects s (monitorWorkers s) =
           map Forked [nextId s ..< nextId s + (numCPUs s - length (workers s))] @
           map (\<lambda>k. Sent k ''health-check'') (connected_ids (workers (monitorWorkers s)))"
    by (simp add: monitorWorkers_eq [OF assms] new_effects_def)
  have 2: "length (filter is_fork (new_effects s (monitorWorkers s))) = numCPUs s - length (workers s)"
    by (simp add: 1 filter_is_fork_Forked filter_is_fork_Sent)
  have 3: "fresh_ids s \<longrightarrow>
           workers (monitorWorkers s) =
             workers s @ fresh_entries (nextId s) (numCPUs s - length (workers s))"
    by (simp add: monitorWorkers_eq [OF assms] fresh_ids_def fork_registry_fresh)
  have 4: "exited s = None \<longrightarrow> step Tick s = monitorWorkers s"
    by (simp add: step_def)
  show ?thesis using 1 2 3 4 by blast
qed

theorem monitorWorkers_tick_witness:
  "new_effects
     \<lparr>numCPUs = 4, workers = [(1, \<lparr>connected = True\<rparr>), (2, \<lparr>connected = False\<rparr>)],
      isMaster = True, nextId = 5, timers = [], waits = [], exited = None, uncaught = [],
      trace = []\<rparr>
     (step Tick
       \<lparr>numCPUs = 4, workers = [(1, \<lparr>connected = True\<rparr>), (2, \<lparr>connected = False\<rparr>)],
        isMaster = True, nextId = 5, timers = [], waits = [], exited = None, uncaught = [],
        trace = []\<rparr>) =
     [Forked 5, Forked 6, Sent 1 ''health-check'', Sent 5 ''health-check'', Sent 6 ''health-check'']"
proof -
  let ?s = "\<lparr>numCPUs = 4, workers = [(1, \<lparr>connected = True\<rparr>), (2, \<lparr>connected = False\<rparr>)],
      isMaster = True, nextId = 5, timers = [], waits = [], exited = None, uncaught = [],
      trace = []\<rparr>"
  have m: "isMaster ?s" and e: "exited ?s = None" and f: "fresh_ids ?s"
    by (simp_all add: fresh_ids_def)
  have w: "fresh_entries 5 2 = [(5, \<lparr>connected = True\<rparr>), (6, \<lparr>connected = True\<rparr>)]"
    by code_simp
  from monitorWorkers_tick [OF m] e f
  have "step Tick ?s = monitorWorkers ?s"
    and "new_effects ?s (monitorWorkers ?s) =
           map Forked [nextId ?s ..< nextId ?s + (numCPUs ?s - length (workers ?s))] @
           map (\<lambda>k. Sent k ''health-check'') (connected_ids (workers (monitorWorkers ?s)))"
    and "workers (monitorWorkers ?s) =
              workers ?s @ fresh_entries (nextId ?s) (numCPUs ?s - length (workers ?s))"
    by blast+
  then show ?thesis
    by (simp add: connected_ids_def w)
qed

text \<open>
  C10. When the registry is not below target, \<open>monitorWorkers\<close> leaves the whole state as
  it was except for the trace, to which it adds only \<open>health-check\<close> messages (in a
  master; nothing at all in a worker process): no fork, no signal, no change of the
  registry. A pool above target stays above target.
\<close>

theorem monitorWorkers_never_shrinks:
  assumes "numCPUs s \<le> length (workers s)"
  shows "monitorWorkers s =
           s\<lparr>trace := trace s @
               (if isMaster s then map (\<lambda>k. Sent k ''health-check'') (connected_ids (workers s))
                else [])\<rparr> \<and>
         workers (monitorWorkers s) = workers s \<and>
         nextId (monitorWorkers s) = nextId s \<and>
         (\<forall>e \<in> set (new_effects s (monitorWorkers s)). \<exists>k. e = Sent k ''health-check'')"
proof -
  have eq: "monitorWorkers s =
           s\<lparr>trace := trace s @
               (if isMaster s then map (\<lambda>k. Sent k ''health-check'') (connected_ids (workers s))
                else [])\<rparr>"
    using assms by (cases "isMaster s") (simp_all add: monitorWorkers_eq, simp add: monitorWorkers_def)
  have ne: "new_effects s (monitorWorkers s) =
      (if isMaster s then map (\<lambda>k. Sent k ''health-check'') (connected_ids (workers s)) else [])"
    by (rule new_effects_append) (simp add: eq)
  have "\<forall>e \<in> set (new_effects s (monitorWorkers s)). \<exists>k. e = Sent k ''health-check''"
    unfolding ne by auto
  moreover have "workers (monitorWorkers s) = workers s" "nextId (monitorWorkers s) = nextId s"
    by (simp_all add: eq)
  ultimately show ?thesis using eq by blast
qed

theorem monitorWorkers_never_shrinks_witness:
  "workers (monitorWorkers
     ((LoadBalancer 1 True)\<lparr>workers := [(1, \<lparr>connected = True\<rparr>), (2, \<lparr>connected = False\<rparr>)], nextId := 3\<rparr>)) =
     [(1, \<lparr>connected = True\<rparr>), (2, \<lparr>connected = False\<rparr>)] \<and>
   new_effects ((LoadBalancer 1 True)\<lparr>workers := [(1, \<lparr>connected = True\<rparr>), (2, \<lparr>connected = False\<rparr>)], nextId := 3\<rparr>)
     (monitorWorkers
       ((LoadBalancer 1 True)\<lparr>workers := [(1, \<lparr>connected = True\<rparr>), (2, \<lparr>connected = False\<rparr>)], nextId := 3\<rparr>)) =
     [Sent 1 ''health-check'']"
proof -
  let ?s = "(LoadBalancer 1 True)\<lparr>workers := [(1, \<lparr>connected = True\<rparr>), (2, \<lparr>connected = False\<rparr>)], nextId := 3\<rparr>"
  have h: "numCPUs ?s \<le> length (workers ?s)"
    by (simp add: LoadBalancer_def)
  from monitorWorkers_never_shrinks [OF h]
  have eq: "monitorWorkers ?s =
           ?s\<lparr>trace := trace ?s @
               (if isMaster ?s then map (\<lambda>k. Sent k ''health-check'') (connected_ids (workers ?s))
                else [])\<rparr>"
    by blast
  show ?thesis
    unfolding eq by (simp add: LoadBalancer_def new_effects_def connected_ids_def)
qed

subsection \<open>Scaling\<close>

text \<open>
  C7. In the master, \<open>scaleWorkers count\<close> with \<open>count\<close> above the registry size adds
  exactly \<open>count - size\<close> forks to the trace and nothing else: no message, no signal.
  With ids never reused the registry afterwards is the old registry, entry for entry,
  followed by the new workers, and has \<open>count\<close> entries.
\<close>

theorem scaleWorkers_up:
  assumes "isMaster s" and "int (length (workers s)) < count" and "fresh_ids s"
  shows "new_effects s (scaleWorkers count s) =
           map Forked [nextId s ..< nextId s + nat (count - int (length (workers s)))] \<and>
         length (new_effects s (scaleWorkers count s)) = nat (count - int (length (workers s))) \<and>
         workers (scaleWorkers count s) =
           workers s @ fresh_entries (nextId s) (nat (count - int (length (workers s)))) \<and>
         take (length (workers s)) (workers (scaleWorkers count s)) = workers s \<and>
         int (length (workers (scaleWorkers count s))) = count \<and>
         timers (scaleWorkers count s) = timers s \<and>
         waits (scaleWorkers count s) = waits s \<and>
         exited (scaleWorkers count s) = exited s"
proof -
  note eq = scale_up_closed_form [OF assms(1,2)]
  have fr: "fork_registry (nextId s) n (workers s) = workers s @ fresh_entries (nextId s) n" for n
    using assms(3) by (intro fork_registry_fresh) (simp add: fresh_ids_def)
  have ne: "new_effects s (scaleWorkers count s) =
           map Forked [nextId s ..< nextId s + nat (count - int (length (workers s)))]"
    by (rule new_effects_append) (simp add: eq)
  have w: "workers (scaleWorkers count s) =
           workers s @ fresh_entries (nextId s) (nat (count - int (length (workers s))))"
    by (simp add: eq fr)
  have len: "int (length (workers (scaleWorkers count s))) = count"
    unfolding w using assms(2) by simp
  show ?thesis
    unfolding ne using w len by (simp add: eq)
qed

theorem scaleWorkers_up_witness:
  "new_effects (startMaster (LoadBalancer 4 True)) (scaleWorkers 6 (startMaster (LoadBalancer 4 True))) =
     [Forked 5, Forked 6] \<and>
   take 4 (workers (scaleWorkers 6 (startMaster (LoadBalancer 4 True)))) =
     workers (startMaster (LoadBalancer 4 True)) \<and>
   length (workers (scaleWorkers 6 (startMaster (LoadBalancer 4 True)))) = 6"
proof -
  let ?s = "startMaster (LoadBalancer 4 True)"
  have s: "?s = \<lparr>numCPUs = 4, workers = [(1, \<lparr>connected = True\<rparr>), (2, \<lparr>connected = True\<rparr>),
      (3, \<lparr>connected = True\<rparr>), (4, \<lparr>connected = True\<rparr>)], isMaster = True, nextId = 5, timers = [],
      waits = [], exited = None, uncaught = [], trace = [Forked 1, Forked 2, Forked 3, Forked 4]\<rparr>"
    by code_simp
  have m: "isMaster ?s" and l: "int (length (workers ?s)) < 6" and f: "fresh_ids ?s"
    by (simp_all add: s fresh_ids_def)
  have v: "nat (6 - int (length (workers ?s))) = 2" "nextId ?s = 5" "length (workers ?s) = 4"
    by (simp_all add: s)
  from scaleWorkers_up [OF m l f]
  have "new_effects ?s (scaleWorkers 6 ?s) = map Forked [5 ..< 5 + 2]"
    and "take 4 (workers (scaleWorkers 6 ?s)) = workers ?s"
    and "int (length (workers (scaleWorkers 6 ?s))) = 6"
    by (simp_all add: v)
  then show ?thesis by simp
qed

lemma run_Exits:
  "isMaster t \<Longrightarrow> exited t = None \<Longrightarrow>
   run (map Exit ks) t =
     t\<lparr>workers := filter (\<lambda>e. fst e \<notin> set ks) (workers t), timers := timers t @ ks\<rparr>"
proof (induction ks arbitrary: t)
  case Nil
  then show ?case by (simp add: run_def)
next
  case (Cons k ks)
  have st: "step (Exit k) t = on_exit k t"
    using Cons.prems by (simp add: step_def)
  have m: "isMaster (on_exit k t)" and e: "exited (on_exit k t) = None"
    using Cons.prems by (simp_all add: on_exit_def)
  have f: "filter (\<lambda>e. fst e \<notin> set ks) (map_delete k (workers t)) =
           filter (\<lambda>e. fst e \<notin> set (k # ks)) (workers t)"
    by (auto simp: map_delete_def intro: filter_cong)
  show ?case
    unfolding list.map run_Cons st Cons.IH [OF m e]
    using f by (simp add: on_exit_def)
qed

lemma connected_ids_all: "\<forall>e \<in> set m. connected (snd e) \<Longrightarrow> connected_ids m = map fst m"
  by (simp add: connected_ids_def)

text \<open>
  Scaling down in general. In the master, \<open>scaleWorkers count\<close> with \<open>count\<close> below the
  registry size \<open>n\<close> visits the first \<open>n - count\<close> registry entries and sends SIGTERM to
  those of them whose channel is connected; it does nothing else. When \<open>count\<close> is not
  negative and all those entries are connected, that is exactly \<open>n - count\<close> signals.
  Once the exit events of the signalled workers are handled, exactly those workers are
  gone from the registry, and for each of them a replacement timer is pending.
\<close>

lemma scale_down_signals:
  assumes "isMaster s" and "count < int (length (workers s))"
  shows "scaleWorkers count s =
           s\<lparr>trace := trace s @ map (\<lambda>k. Killed k SIGTERM)
              (connected_ids (take (nat (int (length (workers s)) - count)) (workers s)))\<rparr> \<and>
         (0 \<le> count \<and>
          (\<forall>e \<in> set (take (nat (int (length (workers s)) - count)) (workers s)). connected (snd e)) \<longrightarrow>
            int (length (new_effects s (scaleWorkers count s))) = int (length (workers s)) - count) \<and>
         (exited s = None \<longrightarrow>
            workers (run
                (map Exit (connected_ids (take (nat (int (length (workers s)) - count)) (workers s))))
                (scaleWorkers count s)) =
              filter (\<lambda>e. fst e \<notin>
                  set (connected_ids (take (nat (int (length (workers s)) - count)) (workers s))))
                (workers s) \<and>
            timers (run
                (map Exit (connected_ids (take (nat (int (length (workers s)) - count)) (workers s))))
                (scaleWorkers count s)) =
              timers s @ connected_ids (take (nat (int (length (workers s)) - count)) (workers s)))"
proof -
  let ?n = "nat (int (length (workers s)) - count)"
  let ?victims = "connected_ids (take ?n (workers s))"
  let ?t = "scaleWorkers count s"
  have eq: "?t = s\<lparr>trace := trace s @ map (\<lambda>k. Killed k SIGTERM) ?victims\<rparr>"
    by (rule scale_down_closed_form [OF assms])
  have ne: "new_effects s ?t = map (\<lambda>k. Killed k SIGTERM) ?victims"
    by (rule new_effects_append) (simp add: eq)
  have count: "int (length (new_effects s ?t)) = int (length (workers s)) - count"
    if "0 \<le> count" and "\<forall>e \<in> set (take ?n (workers s)). connected (snd e)"
  proof -
    have "?victims = map fst (take ?n (workers s))"
      using that(2) by (rule connected_ids_all)
    then have "length (new_effects s ?t) = min (length (workers s)) ?n"
      unfolding ne by simp
    then show ?thesis using that(1) assms(2) by simp
  qed
  have after: "workers (run (map Exit ?victims) ?t) =
        filter (\<lambda>e. fst e \<notin> set ?victims) (workers s) \<and>
      timers (run (map Exit ?victims) ?t) = timers s @ ?victims"
    if "exited s = None"
  proof -
    have m: "isMaster ?t" and e: "exited ?t = None"
      using assms(1) that by (simp_all add: eq)
    have w: "workers ?t = workers s" "timers ?t = timers s" by (simp_all add: eq)
    show ?thesis
      unfolding run_Exits [OF m e] by (simp add: w)
  qed
  show ?thesis using eq count after by blast
qed

text \<open>
  C1. The code breaks the claim. On a pool of four connected workers \<open>scaleWorkers(2)\<close>
  sends SIGTERM to exactly two workers, 1 and 2, as claimed. But when these two have
  disconnected and exited, the exit handler has set a replacement timer for each of
  them, and once the two timers have fired workers 5 and 6 are forked and the registry
  holds four workers again: it does not stay at 2.
\<close>

theorem scaleWorkers_down_replaced:
  "new_effects (startMaster (LoadBalancer 4 True))
     (scaleWorkers 2 (startMaster (LoadBalancer 4 True))) =
     [Killed 1 SIGTERM, Killed 2 SIGTERM] \<and>
   workers (run [Disconnect 1, Exit 1, Disconnect 2, Exit 2]
     (scaleWorkers 2 (startMaster (LoadBalancer 4 True)))) =
     [(3, \<lparr>connected = True\<rparr>), (4, \<lparr>connected = True\<rparr>)] \<and>
   timers (run [Disconnect 1, Exit 1, Disconnect 2, Exit 2]
     (scaleWorkers 2 (startMaster (LoadBalancer 4 True)))) = [1, 2] \<and>
   new_effects (startMaster (LoadBalancer 4 True))
     (run [Disconnect 1, Exit 1, Disconnect 2, Exit 2, Timeout, Timeout]
       (scaleWorkers 2 (startMaster (LoadBalancer 4 True)))) =
     [Killed 1 SIGTERM, Killed 2 SIGTERM, Forked 5, Forked 6] \<and>
   workers (run [Disconnect 1, Exit 1, Disconnect 2, Exit 2, Timeout, Timeout]
     (scaleWorkers 2 (startMaster (LoadBalancer 4 True)))) =
     [(3, \<lparr>connected = True\<rparr>), (4, \<lparr>connected = True\<rparr>),
      (5, \<lparr>connected = True\<rparr>), (6, \<lparr>connected = True\<rparr>)]"
  by code_simp

subsection \<open>Replacement during shutdown\<close>

text \<open>
  C2 (as amended). The supervisor has no shutdown mode. \<open>shutdownGracefully\<close> itself forks
  no worker, sets no timer and leaves registry and id counter alone, and once the master
  process has exited no event changes anything. But while the process still runs, also
  while a shutdown waits for its workers, the exit of a worker is handled as any other:
  the worker leaves the registry and one replacement timer is set, whatever is awaited;
  and a replacement timer that fires forks one worker.
\<close>

theorem shutdown_replacement:
  "filter is_fork (new_effects s (shutdownGracefully s)) = [] \<and>
   timers (shutdownGracefully s) = timers s \<and>
   workers (shutdownGracefully s) = workers s \<and>
   nextId (shutdownGracefully s) = nextId s \<and>
   (exited s \<noteq> None \<longrightarrow> run evs s = s) \<and>
   (isMaster s \<and> exited s = None \<longrightarrow>
      timers (step (Exit k) s) = timers s @ [k] \<and>
      workers (step (Exit k) s) = map_delete k (workers s) \<and>
      waits (step (Exit k) s) = waits s \<and>
      new_effects s (step (Exit k) s) = []) \<and>
   (exited s = None \<and> timers s \<noteq> [] \<longrightarrow>
      timers (step Timeout s) = tl (timers s) \<and>
      new_effects s (step Timeout s) = [Forked (nextId s)])"
proof -
  note f = shutdownGracefully_fields [of s]
  have a: "filter is_fork (new_effects s (shutdownGracefully s)) = []"
    using f by (simp add: new_effects_def filter_is_fork_Sent)
  have b: "exited s \<noteq> None \<longrightarrow> run evs s = s"
    by (simp add: run_exited)
  have c: "isMaster s \<and> exited s = None \<longrightarrow>
      timers (step (Exit k) s) = timers s @ [k] \<and>
      workers (step (Exit k) s) = map_delete k (workers s) \<and>
      waits (step (Exit k) s) = waits s \<and>
      new_effects s (step (Exit k) s) = []"
    by (simp add: step_def on_exit_def new_effects_def)
  have d: "exited s = None \<and> timers s \<noteq> [] \<longrightarrow>
      timers (step Timeout s) = tl (timers s) \<and>
      new_effects s (step Timeout s) = [Forked (nextId s)]"
    by (simp add: step_def forkWorker_def new_effects_def split: list.splits)
  show ?thesis using a b c d f by blast
qed

theorem shutdown_replacement_witness:
  "run [Exit 2, Timeout, Tick]
     (run [Disconnect 1, Exit 1, Disconnect 2] (shutdownGracefully (startMaster (LoadBalancer 2 True)))) =
     run [Disconnect 1, Exit 1, Disconnect 2] (shutdownGracefully (startMaster (LoadBalancer 2 True))) \<and>
   timers (step (Exit 1) (shutdownGracefully (startMaster (LoadBalancer 2 True)))) = [1] \<and>
   new_effects (step (Exit 1) (shutdownGracefully (startMaster (LoadBalancer 2 True))))
     (step Timeout (step (Exit 1) (shutdownGracefully (startMaster (LoadBalancer 2 True))))) =
     [Forked 3]"
proof -
  let ?s1 = "shutdownGracefully (startMaster (LoadBalancer 2 True))"
  let ?s2 = "step (Exit 1) ?s1"
  let ?s3 = "run [Disconnect 1, Exit 1, Disconnect 2] ?s1"
  have h3: "exited ?s3 \<noteq> None" by code_simp
  have h1: "isMaster ?s1 \<and> exited ?s1 = None" by code_simp
  have t1: "timers ?s1 = []" by code_simp
  have h2: "exited ?s2 = None \<and> timers ?s2 \<noteq> []" by code_simp
  have n2: "nextId ?s2 = 3" by code_simp
  show ?thesis
    using shutdown_replacement [of ?s3 "[Exit 2, Timeout, Tick]" 2]
      shutdown_replacement [of ?s1 "[]" 1] shutdown_replacement [of ?s2 "[]" 1]
      h1 h2 h3 t1 n2
    by simp
qed

text \<open>
  The claim C2 as the specification states it fails on the code. A master with two
  workers starts its graceful shutdown and awaits both. Worker 1 disconnects and exits
  while worker 2 is still awaited: a replacement timer is set, and when it fires worker 3
  is forked, the master still being in its shutdown wait. In the same wait a health-check
  tick after the disconnect of worker 1 finds the registry below target and forks too.
\<close>

theorem shutdown_replacement_counterexample:
  "waits (shutdownGracefully (startMaster (LoadBalancer 2 True))) = [[1, 2]] \<and>
   timers (run [Disconnect 1, Exit 1] (shutdownGracefully (startMaster (LoadBalancer 2 True)))) = [1] \<and>
   exited (run [Disconnect 1, Exit 1, Timeout] (shutdownGracefully (startMaster (LoadBalancer 2 True)))) = None \<and>
   waits (run [Disconnect 1, Exit 1, Timeout] (shutdownGracefully (startMaster (LoadBalancer 2 True)))) = [[2]] \<and>
   new_effects (shutdownGracefully (startMaster (LoadBalancer 2 True)))
     (run [Disconnect 1, Exit 1, Timeout] (shutdownGracefully (startMaster (LoadBalancer 2 True)))) =
     [Forked 3] \<and>
   new_effects (shutdownGracefully (startMaster (LoadBalancer 2 True)))
     (run [Disconnect 1, Tick] (shutdownGracefully (startMaster (LoadBalancer 2 True)))) =
     [Forked 3, Sent 2 ''health-check'', Sent 3 ''health-check'']"
  by code_simp

subsection \<open>The worker process\<close>

text \<open>
  C8. A running worker that receives \<open>shutdown\<close> over its channel exits with code 0; a
  running worker in which an exception is uncaught or a rejection unhandled exits with
  code 1; and \<open>health-check\<close> never changes the exit status of a worker: it answers with
  one health report and keeps running. A worker whose server module loads is running,
  with its channel open, after start; one whose server module fails to load has exited
  with code 1.
\<close>

theorem worker_exit_codes:
  "(worker_exited p = None \<and> ipc_open p \<longrightarrow>
      worker_exited (worker_step (Message ''shutdown'') p) = Some 0) \<and>
   (worker_exited p = None \<longrightarrow>
      worker_exited (worker_step UncaughtException p) = Some 1 \<and>
      worker_exited (worker_step UnhandledRejection p) = Some 1) \<and>
   worker_exited (worker_step (Message ''health-check'') p) = worker_exited p \<and>
   (worker_exited p = None \<and> ipc_open p \<longrightarrow>
      health_reports (worker_step (Message ''health-check'') p) = Suc (health_reports p)) \<and>
   worker_exited (worker_main True) = None \<and> ipc_open (worker_main True) \<and>
   worker_exited (worker_main False) = Some 1"
  by (simp add: worker_step_def worker_exit_def process_send_def worker_main_def startWorker_def)

theorem worker_exit_codes_witness:
  "worker_exited (worker_step (Message ''shutdown'') (worker_main True)) = Some 0 \<and>
   worker_exited (worker_step UncaughtException (worker_main True)) = Some 1 \<and>
   worker_exited (worker_step UnhandledRejection (worker_main True)) = Some 1 \<and>
   worker_exited (worker_step (Message ''health-check'') (worker_main True)) = None \<and>
   health_reports (worker_step (Message ''health-check'') (worker_main True)) = 1"
proof -
  have h: "worker_exited (worker_main True) = None" "ipc_open (worker_main True)"
    "health_reports (worker_main True) = 0"
    by (simp_all add: worker_main_def startWorker_def)
  show ?thesis
    using worker_exit_codes [of "worker_main True"] h by simp
qed

subsection \<open>The target worker count\<close>

text \<open>
  C3. With \<open>CLUSTER_WORKERS=2\<close> set in a production environment on a machine of 8 cores,
  \<open>validateEnv\<close> accepts the override and reports 2 cluster workers, but the start script
  builds the \<open>LoadBalancer\<close> without it: the target worker count is 8 and 8 workers are
  forked.
\<close>

theorem configured_worker_count_ignored:
  "map_option CLUSTER_WORKERS
     (validateEnv \<lparr>NODE_ENV_var = Some ''production'', ENABLE_CLUSTER_var = None,
                   CLUSTER_WORKERS_var = Some 2, rest_valid = True\<rparr> 8) = Some 2 \<and>
   production_start \<lparr>NODE_ENV_var = Some ''production'', ENABLE_CLUSTER_var = None,
                     CLUSTER_WORKERS_var = Some 2, rest_valid = True\<rparr> 8 True True =
     MasterProcess (startMaster (LoadBalancer 8 True)) \<and>
   numCPUs (startMaster (LoadBalancer 8 True)) = 8 \<and>
   length (workers (startMaster (LoadBalancer 8 True))) = 8 \<and>
   map_option (\<lambda>st. expected (stats_workers st)) (getStats (startMaster (LoadBalancer 8 True))) = Some 8"
  by code_simp

end
